theory Spec2Isabelle
  imports Main "HOL-Library.Sublist"
begin

section \<open>Python values shared by the modules\<close>

text \<open>
  Strings are \<^typ>\<open>string\<close>: the bytes of the UTF-8 text. Exceptions are values; a function
  that may raise returns \<open>py_exception + 'a\<close>, with \<open>Inl\<close> for the exception raised.
\<close>

datatype py_exception =
    ValueError string
  | OverflowError string
  | UnknownTimeZoneError string
  | OperationalError string
  | DataError string
  | ApiException string

text \<open>\<open>str(e)\<close>: the message; for the \<open>KeyError\<close> subclass of pytz, the quoted key.\<close>

fun str_exc :: "py_exception \<Rightarrow> string" where
  "str_exc (ValueError m) = m"
| "str_exc (OverflowError m) = m"
| "str_exc (UnknownTimeZoneError z) = [CHR 0x27] @ z @ [CHR 0x27]"
| "str_exc (OperationalError m) = m"
| "str_exc (DataError m) = m"
| "str_exc (ApiException m) = m"

text \<open>\<open>str(n)\<close> for an integer: decimal digits, with a minus sign when negative.\<close>

fun str_nat :: "nat \<Rightarrow> string" where
  "str_nat n = (if n < 10 then [''0123456789'' ! n]
                else str_nat (n div 10) @ [''0123456789'' ! (n mod 10)])"

definition str_int :: "int \<Rightarrow> string" where
  "str_int i = (if i < 0 then ''-'' @ str_nat (nat (- i)) else str_nat (nat i))"




section \<open>language\_manager.py\<close>






section \<open>models.py\<close>

text \<open>
  The two tables, as the \<open>CREATE TABLE\<close> statements declare them. Dates are day numbers and
  timestamps are microsecond counts, both read from the database server's clock.
\<close>

record user_row =
  u_user_id :: int
  u_language :: string
  u_created_at :: int
  u_updated_at :: int

record habit_entry =
  he_id :: int
  he_user_id :: int
  he_entry_date :: int
  he_created_at :: int
  he_notes :: "string option"

text \<open>\<open>self.connection\<close>: \<open>None\<close>, an open handle, or a handle that has been closed.\<close>

datatype conn = NoConn | Opened | Closed

text \<open>
  The tracker together with the database it talks to. \<open>faults\<close> is the environment's script
  for the coming round trips to the server (connect, execute, commit, rollback), one entry
  per round trip: \<open>True\<close> makes that round trip raise. Past the end of the script every
  round trip succeeds.
\<close>

record tracker =
  connection :: conn
  users :: "user_row list"
  habit_entries :: "habit_entry list"
  habit_entries_id_seq :: int
  current_timestamp :: int
  current_date :: int
  faults :: "bool list"

type_synonym 'a raising = "(py_exception + 'a) \<times> tracker"

text \<open>Sequencing inside a \<open>try\<close> block: the first exception ends the block.\<close>

definition and_then :: "'a raising \<Rightarrow> ('a \<Rightarrow> tracker \<Rightarrow> 'b raising) \<Rightarrow> 'b raising" where
  "and_then r f = (case r of (Inl e, t) \<Rightarrow> (Inl e, t) | (Inr x, t) \<Rightarrow> f x t)"

definition round_trip :: "tracker \<Rightarrow> unit raising" where
  "round_trip t =
     (case faults t of
        [] \<Rightarrow> (Inr (), t)
      | f # fs \<Rightarrow> (if f then Inl (OperationalError ''server closed the connection unexpectedly'')
                   else Inr (), t\<lparr>faults := fs\<rparr>))"

text \<open>\<open>_connect\<close>: \<open>self.connection\<close> is assigned only when \<open>psycopg2.connect\<close> returns.\<close>

definition connect :: "tracker \<Rightarrow> unit raising" where
  "connect t = and_then (round_trip t) (\<lambda>_ t'. (Inr (), t'\<lparr>connection := Opened\<rparr>))"

text \<open>
  \<open>_ensure_connection\<close>: connect when there is no open handle, else probe it with
  \<open>SELECT 1\<close>; whichever of the two raises, \<open>_connect\<close> is tried once more and its exception
  is re-raised.
\<close>

definition ensure_connection :: "tracker \<Rightarrow> unit raising" where
  "ensure_connection t =
     (case (if connection t \<noteq> Opened then connect t else round_trip t) of
        (Inr u, t') \<Rightarrow> (Inr u, t')
      | (Inl e, t') \<Rightarrow> connect t')"

text \<open>The handlers' \<open>rollback()\<close>, guarded and with its own exception swallowed.\<close>

definition rollback :: "tracker \<Rightarrow> tracker" where
  "rollback t = (if connection t = Opened then snd (round_trip t) else t)"



text \<open>
  \<open>ORDER BY entry_date DESC, created_at DESC LIMIT 1\<close> over the rows of one user: a row
  that no other row of the user precedes in that order (among rows equal in both keys, the
  one inserted first).
\<close>

definition newer :: "habit_entry \<Rightarrow> habit_entry \<Rightarrow> bool" where
  "newer a b = (he_entry_date b < he_entry_date a
                \<or> (he_entry_date b = he_entry_date a \<and> he_created_at b < he_created_at a))"

fun newest :: "habit_entry list \<Rightarrow> habit_entry option" where
  "newest [] = None"
| "newest (r # rs) =
     (case newest rs of None \<Rightarrow> Some r | Some b \<Rightarrow> (if newer b r then Some b else Some r))"

record entry_view =
  v_entry_date :: int
  v_created_at :: int
  v_notes :: "string option"

definition rows_of :: "int \<Rightarrow> tracker \<Rightarrow> habit_entry list" where
  "rows_of user_id t = filter (\<lambda>r. he_user_id r = user_id) (habit_entries t)"

definition select_last :: "int \<Rightarrow> tracker \<Rightarrow> entry_view option" where
  "select_last user_id t =
     map_option (\<lambda>r. \<lparr>v_entry_date = he_entry_date r, v_created_at = he_created_at r,
                       v_notes = he_notes r\<rparr>)
       (newest (rows_of user_id t))"

text \<open>\<open>get_last_entry\<close>: the \<open>try\<close> block, then the handler: any exception gives \<open>None\<close>.\<close>

definition try_get_last_entry :: "int \<Rightarrow> tracker \<Rightarrow> entry_view option raising" where
  "try_get_last_entry user_id t =
     and_then (ensure_connection t) (\<lambda>_ t1.
       and_then (round_trip t1) (\<lambda>_ t2. (Inr (select_last user_id t2), t2)))"

definition get_last_entry :: "int \<Rightarrow> tracker \<Rightarrow> entry_view option \<times> tracker" where
  "get_last_entry user_id t =
     (case try_get_last_entry user_id t of
        (Inr result, t') \<Rightarrow> (result, t')
      | (Inl e, t') \<Rightarrow> (None, t'))"

text \<open>\<open>get_total_count\<close>: \<open>COUNT(*)\<close> of the user's rows; any exception gives \<open>0\<close>.\<close>

definition try_get_total_count :: "int \<Rightarrow> tracker \<Rightarrow> int raising" where
  "try_get_total_count user_id t =
     and_then (ensure_connection t) (\<lambda>_ t1.
       and_then (round_trip t1) (\<lambda>_ t2. (Inr (int (length (rows_of user_id t2))), t2)))"

definition get_total_count :: "int \<Rightarrow> tracker \<Rightarrow> int \<times> tracker" where
  "get_total_count user_id t =
     (case try_get_total_count user_id t of
        (Inr result, t') \<Rightarrow> (result, t')
      | (Inl e, t') \<Rightarrow> (0, t'))"

text \<open>
  \<open>get_days_since_last\<close>: \<open>today\<close> is \<open>date.today()\<close> of the Python process, a day number
  like \<open>entry_date\<close>.
\<close>

definition get_days_since_last :: "int \<Rightarrow> int \<Rightarrow> tracker \<Rightarrow> int option \<times> tracker" where
  "get_days_since_last today user_id t =
     (case get_last_entry user_id t of
        (None, t') \<Rightarrow> (None, t')
      | (Some last_entry, t') \<Rightarrow> (Some (today - v_entry_date last_entry), t'))"

record user_stats =
  last_entry :: "entry_view option"
  total_count :: int
  days_since_last :: "int option"

text \<open>
  \<open>get_user_stats\<close>: the three calls in the source's order. Each of them catches its own
  exceptions, so nothing reaches the \<open>except\<close> branch that would return \<open>None\<close>.
\<close>

definition get_user_stats :: "int \<Rightarrow> int \<Rightarrow> tracker \<Rightarrow> user_stats option \<times> tracker" where
  "get_user_stats today user_id t =
     (let (last, t1) = get_last_entry user_id t;
          (total, t2) = get_total_count user_id t1;
          (days_since, t3) = get_days_since_last today user_id t2
      in (Some \<lparr>last_entry = last, total_count = total, days_since_last = days_since\<rparr>, t3))"

text \<open>
  What the column \<open>language VARCHAR(10)\<close> stores for a value: the value itself up to ten
  characters; a longer one only when the excess is all spaces, cut to ten; otherwise the
  statement fails.
\<close>

definition varchar10 :: "string \<Rightarrow> string option" where
  "varchar10 s = (if length s \<le> 10 then Some s
                  else if list_all (\<lambda>c. c = CHR '' '') (drop 10 s) then Some (take 10 s)
                  else None)"

text \<open>\<open>INSERT ... ON CONFLICT (user_id) DO UPDATE SET language, updated_at\<close>.\<close>

definition upsert :: "int \<Rightarrow> string \<Rightarrow> int \<Rightarrow> user_row list \<Rightarrow> user_row list" where
  "upsert user_id language now rows =
     (if list_ex (\<lambda>r. u_user_id r = user_id) rows
      then map (\<lambda>r. if u_user_id r = user_id
                     then r\<lparr>u_language := language, u_updated_at := now\<rparr> else r) rows
      else rows @ [\<lparr>u_user_id = user_id, u_language = language,
                     u_created_at = now, u_updated_at = now\<rparr>])"

text \<open>
  \<open>set_user_language\<close>: returns the \<open>RETURNING\<close> value; on any exception, after the
  rollback, the requested language.
\<close>

definition try_set_user_language :: "int \<Rightarrow> string \<Rightarrow> tracker \<Rightarrow> string raising" where
  "try_set_user_language user_id language t =
     and_then (ensure_connection t) (\<lambda>_ t1.
       and_then (round_trip t1) (\<lambda>_ t2.
         case varchar10 language of
           None \<Rightarrow> (Inl (DataError ''value too long for type character varying(10)''), t2)
         | Some stored \<Rightarrow>
             and_then (round_trip t2) (\<lambda>_ t3.
               (Inr stored,
                t3\<lparr>users := upsert user_id stored (current_timestamp t3) (users t3)\<rparr>))))"

definition set_user_language :: "int \<Rightarrow> string \<Rightarrow> tracker \<Rightarrow> string \<times> tracker" where
  "set_user_language user_id language t =
     (case try_set_user_language user_id language t of
        (Inr result, t') \<Rightarrow> (result, t')
      | (Inl e, t') \<Rightarrow> (language, rollback t'))"

text \<open>\<open>SELECT language FROM users WHERE user_id = %s\<close> and \<open>fetchone()\<close>.\<close>

definition fetch_language :: "int \<Rightarrow> tracker \<Rightarrow> string option raising" where
  "fetch_language user_id t =
     and_then (ensure_connection t) (\<lambda>_ t1.
       and_then (round_trip t1) (\<lambda>_ t2.
         (Inr (map_option u_language (find (\<lambda>r. u_user_id r = user_id) (users t2))), t2)))"

text \<open>
  \<open>get_user_language\<close>: the stored language; for a user without a row the result of
  \<open>set_user_language(user_id, 'english')\<close>; on any exception \<open>'english'\<close>.
\<close>

definition get_user_language :: "int \<Rightarrow> tracker \<Rightarrow> string \<times> tracker" where
  "get_user_language user_id t =
     (case and_then (fetch_language user_id t) (\<lambda>result t1.
             case result of
               Some language \<Rightarrow> (Inr language, t1)
             | None \<Rightarrow> (case set_user_language user_id ''english'' t1 of
                          (language, t2) \<Rightarrow> (Inr language, t2))) of
        (Inr language, t') \<Rightarrow> (language, t')
      | (Inl e, t') \<Rightarrow> (''english'', t'))"


text \<open>The storage is healthy when no coming round trip is scripted to raise.\<close>

definition healthy :: "tracker \<Rightarrow> bool" where
  "healthy t = (True \<notin> set (faults t))"

definition user_rows :: "int \<Rightarrow> tracker \<Rightarrow> user_row list" where
  "user_rows user_id t = filter (\<lambda>r. u_user_id r = user_id) (users t)"





text \<open>Two trackers agree on the tables and the server clock; connection and script may differ.\<close>

definition same_tables :: "tracker \<Rightarrow> tracker \<Rightarrow> bool" where
  "same_tables t t' = (users t' = users t \<and> habit_entries t' = habit_entries t
      \<and> current_timestamp t' = current_timestamp t \<and> current_date t' = current_date t)"

text \<open>Every row of the user in \<open>users\<close> holds the language \<open>'english'\<close>.\<close>

definition all_english :: "int \<Rightarrow> tracker \<Rightarrow> bool" where
  "all_english u t = (\<forall>r \<in> set (users t). u_user_id r = u \<longrightarrow> u_language r = ''english'')"

subsection \<open>Example states\<close>

text \<open>
  A tracker on an empty database with an open connection, on 2024-01-01 (day 19723 of the
  epoch); the same with a user 42 who prefers Arabic; and a tracker holding one entry of
  user 42 whose next two round trips (the probe and the reconnect) raise.
\<close>

definition fresh_tracker :: tracker where
  "fresh_tracker = \<lparr>connection = Opened, users = [], habit_entries = [],
     habit_entries_id_seq = 0, current_timestamp = 1704103200000000, current_date = 19723,
     faults = []\<rparr>"

definition arabic_user_tracker :: tracker where
  "arabic_user_tracker = fresh_tracker\<lparr>users :=
     [\<lparr>u_user_id = 42, u_language = ''arabic'', u_created_at = 0, u_updated_at = 0\<rparr>]\<rparr>"

definition flaky_tracker :: tracker where
  "flaky_tracker = fresh_tracker\<lparr>habit_entries :=
       [\<lparr>he_id = 1, he_user_id = 42, he_entry_date = 19723,
          he_created_at = 1704103200000000, he_notes = None\<rparr>],
     habit_entries_id_seq := 1, faults := [True, True]\<rparr>"


section \<open>Properties\<close>

subsection \<open>Habit classifier\<close>




subsection \<open>Storage: what a round trip can change\<close>

lemma same_tables_refl: "same_tables t t"
  by (simp add: same_tables_def)

lemma same_tables_trans: "same_tables t t1 \<Longrightarrow> same_tables t1 t2 \<Longrightarrow> same_tables t t2"
  by (simp add: same_tables_def)

lemma and_then_cases:
  assumes "and_then r f = (res, t')"
  obtains (raised) e where "r = (Inl e, t')" "res = Inl e"
        | (went_on) x t1 where "r = (Inr x, t1)" "f x t1 = (res, t')"
  using assms by (auto simp: and_then_def split: prod.splits sum.splits)

lemma round_trip_same: "round_trip t = (r, t') \<Longrightarrow> same_tables t t'"
  by (auto simp: round_trip_def same_tables_def split: list.splits)

lemma connect_same: "connect t = (r, t') \<Longrightarrow> same_tables t t'"
  unfolding connect_def
  by (erule and_then_cases) (auto dest: round_trip_same simp: same_tables_def)

lemma ensure_connection_same: "ensure_connection t = (r, t') \<Longrightarrow> same_tables t t'"
  unfolding ensure_connection_def
  by (auto split: if_splits prod.splits sum.splits
      dest: round_trip_same connect_same intro: same_tables_trans)

lemma rollback_same: "same_tables t (rollback t)"
  by (cases "round_trip t") (auto simp: rollback_def same_tables_refl dest: round_trip_same)

lemma notin_set_tl: "x \<notin> set xs \<Longrightarrow> x \<notin> set (tl xs)"
  by (cases xs) auto

lemma healthy_round_trip:
  "True \<notin> set (faults t) \<Longrightarrow> round_trip t = (Inr (), t\<lparr>faults := tl (faults t)\<rparr>)"
  by (cases "faults t") (auto simp: round_trip_def)

lemma healthy_ensure_connection:
  "True \<notin> set (faults t) \<Longrightarrow>
     ensure_connection t = (Inr (), t\<lparr>connection := Opened, faults := tl (faults t)\<rparr>)"
  by (cases "connection t = Opened")
     (auto simp: ensure_connection_def connect_def and_then_def healthy_round_trip)

lemmas healthy_simps =
  healthy_def healthy_round_trip healthy_ensure_connection notin_set_tl and_then_def

subsection \<open>Storage: the queries\<close>









subsection \<open>Storage: recording entries\<close>






lemma user_rows_same: "same_tables t t' \<Longrightarrow> user_rows u t' = user_rows u t"
  by (simp add: same_tables_def user_rows_def)


subsection \<open>Storage: the language preference\<close>

lemma try_set_user_language_raised:
  assumes "try_set_user_language u l t = (Inl e, t')"
  shows "same_tables t t'"
  using assms unfolding try_set_user_language_def
  by (elim and_then_cases)
     (auto dest!: ensure_connection_same round_trip_same simp: same_tables_def
      split: option.splits elim!: and_then_cases)

lemma try_set_user_language_returned:
  assumes "try_set_user_language u l t = (Inr res, t')"
  shows "varchar10 l = Some res \<and> habit_entries t' = habit_entries t
     \<and> users t' = upsert u res (current_timestamp t) (users t)"
  using assms unfolding try_set_user_language_def
  by (elim and_then_cases)
     (auto dest!: ensure_connection_same round_trip_same simp: same_tables_def
      split: option.splits elim!: and_then_cases)

lemma set_user_language_cases:
  assumes "set_user_language u l t = (res, t')"
  shows "habit_entries t' = habit_entries t \<and>
     ((res = l \<and> users t' = users t) \<or>
      (varchar10 l = Some res \<and> users t' = upsert u res (current_timestamp t) (users t)))"
proof (cases "try_set_user_language u l t")
  case (Pair r t1)
  show ?thesis
  proof (cases r)
    case (Inl e)
    with Pair assms have "t' = rollback t1" "res = l"
      by (auto simp: set_user_language_def)
    moreover from Pair Inl have "same_tables t t1"
      by (auto dest: try_set_user_language_raised)
    ultimately show ?thesis
      using rollback_same [of t1] by (auto simp: same_tables_def)
  next
    case (Inr x)
    with Pair assms have "t' = t1" "res = x"
      by (auto simp: set_user_language_def)
    with Pair Inr show ?thesis
      by (auto dest: try_set_user_language_returned)
  qed
qed

lemma fetch_language_cases:
  assumes "fetch_language u t = (r, t')"
  shows "same_tables t t' \<and>
     (\<forall>x. r = Inr x \<longrightarrow> x = map_option u_language (find (\<lambda>r. u_user_id r = u) (users t)))"
  using assms unfolding fetch_language_def
  by (elim and_then_cases)
     (auto dest!: ensure_connection_same round_trip_same simp: same_tables_def)

lemma get_user_language_cases:
  assumes "get_user_language u t = (res, t')"
  shows "(res = ''english'' \<and> same_tables t t')
     \<or> (\<exists>r. find (\<lambda>r. u_user_id r = u) (users t) = Some r \<and> res = u_language r
            \<and> same_tables t t')
     \<or> (find (\<lambda>r. u_user_id r = u) (users t) = None
          \<and> (\<exists>t1. same_tables t t1 \<and> set_user_language u ''english'' t1 = (res, t')))"
proof (cases "fetch_language u t")
  case (Pair r t1)
  note f = fetch_language_cases [OF Pair]
  show ?thesis
  proof (cases r)
    case (Inl e)
    with Pair assms f show ?thesis
      by (auto simp: get_user_language_def and_then_def)
  next
    case (Inr x)
    show ?thesis
    proof (cases x)
      case None
      with Inr Pair assms f show ?thesis
        by (cases "set_user_language u ''english'' t1")
           (auto simp: get_user_language_def and_then_def)
    next
      case (Some l)
      with Inr f obtain row where "find (\<lambda>r. u_user_id r = u) (users t) = Some row"
        "l = u_language row"
        by (cases "find (\<lambda>r. u_user_id r = u) (users t)") auto
      moreover from Some Inr Pair assms have "res = l" "t' = t1"
        by (auto simp: get_user_language_def and_then_def)
      ultimately show ?thesis using f by auto
    qed
  qed
qed

lemma find_SomeD_row: "find P xs = Some x \<Longrightarrow> P x \<and> x \<in> set xs"
  by (induction xs) (auto split: if_splits)

lemma varchar10_short: "length l \<le> 10 \<Longrightarrow> varchar10 l = Some l"
  by (simp add: varchar10_def)

lemma upsert_language:
  assumes "r \<in> set (upsert u l now rows)" and "u_user_id r = u"
  shows "u_language r = l"
proof (cases "list_ex (\<lambda>r. u_user_id r = u) rows")
  case True
  with assms(1) have "r \<in> (\<lambda>r. if u_user_id r = u
      then r\<lparr>u_language := l, u_updated_at := now\<rparr> else r) ` set rows"
    by (simp add: upsert_def)
  then obtain r0 where "r0 \<in> set rows"
    and r: "r = (if u_user_id r0 = u then r0\<lparr>u_language := l, u_updated_at := now\<rparr> else r0)"
    by (rule imageE)
  show ?thesis
  proof (cases "u_user_id r0 = u")
    case True
    with r show ?thesis by simp
  next
    case False
    with r assms(2) show ?thesis by simp
  qed
next
  case False
  then have none: "\<forall>x \<in> set rows. u_user_id x \<noteq> u" by (simp add: list_ex_iff)
  from False assms(1)
  have "r = \<lparr>u_user_id = u, u_language = l, u_created_at = now, u_updated_at = now\<rparr>
      \<or> r \<in> set rows"
    by (simp add: upsert_def)
  then show ?thesis
  proof
    assume "r = \<lparr>u_user_id = u, u_language = l, u_created_at = now, u_updated_at = now\<rparr>"
    then have "u_language r =
      u_language \<lparr>u_user_id = u, u_language = l, u_created_at = now, u_updated_at = now\<rparr>"
      by (rule arg_cong)
    then show ?thesis by simp
  next
    assume "r \<in> set rows"
    with none assms(2) show ?thesis by blast
  qed
qed

lemma upsert_has_row: "\<exists>r \<in> set (upsert u l now rows). u_user_id r = u"
proof (cases "list_ex (\<lambda>r. u_user_id r = u) rows")
  case True
  then obtain r where r: "r \<in> set rows" "u_user_id r = u"
    unfolding list_ex_iff by blast
  let ?f = "\<lambda>r. if u_user_id r = u then r\<lparr>u_language := l, u_updated_at := now\<rparr> else r"
  have "?f r \<in> ?f ` set rows" using r(1) by (rule imageI)
  then have "?f r \<in> set (upsert u l now rows)" using True by (simp add: upsert_def)
  moreover have "u_user_id (?f r) = u" using r(2) by simp
  ultimately show ?thesis by (rule bexI [rotated])
next
  case False
  then show ?thesis by (simp add: upsert_def)
qed

lemma find_upsert:
  "\<exists>r. find (\<lambda>r. u_user_id r = u) (upsert u l now rows) = Some r \<and> u_language r = l"
proof (cases "find (\<lambda>r. u_user_id r = u) (upsert u l now rows)")
  case None
  then have "\<not> (\<exists>r. r \<in> set (upsert u l now rows) \<and> u_user_id r = u)"
    unfolding find_None_iff .
  then show ?thesis using upsert_has_row [of u l now rows] by blast
next
  case (Some r)
  then have "u_user_id r = u" "r \<in> set (upsert u l now rows)"
    by (auto dest: find_SomeD_row)
  then have "u_language r = l" by (rule upsert_language [rotated])
  with Some show ?thesis by simp
qed

lemma length_user_rows_upsert:
  "length (filter (\<lambda>r. u_user_id r = u) (upsert u l now rows)) =
     max 1 (length (filter (\<lambda>r. u_user_id r = u) rows))"
proof (cases "list_ex (\<lambda>r. u_user_id r = u) rows")
  case True
  then obtain r where "r \<in> set rows" "u_user_id r = u" by (auto simp: list_ex_iff)
  then have "filter (\<lambda>r. u_user_id r = u) rows \<noteq> []" by (auto simp: filter_empty_conv)
  then have pos: "1 \<le> length (filter (\<lambda>r. u_user_id r = u) rows)"
    by (cases "filter (\<lambda>r. u_user_id r = u) rows") auto
  have "filter (\<lambda>r. u_user_id r = u)
          (map (\<lambda>r. if u_user_id r = u then r\<lparr>u_language := l, u_updated_at := now\<rparr> else r) rows)
        = map (\<lambda>r. r\<lparr>u_language := l, u_updated_at := now\<rparr>) (filter (\<lambda>r. u_user_id r = u) rows)"
    by (induction rows) auto
  with True pos show ?thesis by (simp add: upsert_def)
next
  case False
  then have "filter (\<lambda>r. u_user_id r = u) rows = []"
    by (auto simp: list_ex_iff filter_empty_conv)
  with False show ?thesis by (simp add: upsert_def)
qed

lemma get_user_language_english:
  assumes "all_english u t"
  shows "fst (get_user_language u t) = ''english''
     \<and> all_english u (snd (get_user_language u t))
     \<and> length (user_rows u (snd (get_user_language u t))) \<le> max 1 (length (user_rows u t))"
proof (cases "get_user_language u t")
  case (Pair res t')
  from get_user_language_cases [OF Pair] show ?thesis
  proof (elim disjE exE conjE)
    assume "res = ''english''" "same_tables t t'"
    with assms Pair show ?thesis
      by (simp add: all_english_def same_tables_def user_rows_def)
  next
    fix r assume "find (\<lambda>r. u_user_id r = u) (users t) = Some r" "res = u_language r"
      "same_tables t t'"
    moreover from this have "r \<in> set (users t)" "u_user_id r = u"
      by (auto dest: find_SomeD_row)
    ultimately show ?thesis
      using assms Pair by (simp add: all_english_def same_tables_def user_rows_def)
  next
    fix t1 assume none: "find (\<lambda>r. u_user_id r = u) (users t) = None"
      and same: "same_tables t t1" and set: "set_user_language u ''english'' t1 = (res, t')"
    have v: "varchar10 ''english'' = Some ''english''" by (simp add: varchar10_def)
    from set_user_language_cases [OF set]
    have "(res = ''english'' \<and> users t' = users t1) \<or>
      (varchar10 ''english'' = Some res
         \<and> users t' = upsert u res (current_timestamp t1) (users t1))"
      by (rule conjunct2)
    then have res: "res = ''english''"
      and us: "users t' = users t1 \<or> users t' = upsert u ''english'' (current_timestamp t1) (users t1)"
      unfolding v by blast+
    from us have "all_english u t' \<and> length (user_rows u t') \<le> max 1 (length (user_rows u t))"
    proof
      assume "users t' = users t1"
      with assms same show ?thesis by (simp add: all_english_def same_tables_def user_rows_def)
    next
      assume up: "users t' = upsert u ''english'' (current_timestamp t1) (users t1)"
      have "all_english u t'"
        unfolding all_english_def up using upsert_language by blast
      moreover have "length (user_rows u t') = max 1 (length (user_rows u t))"
        using up same by (simp add: user_rows_def length_user_rows_upsert same_tables_def)
      ultimately show ?thesis by simp
    qed
    with res Pair show ?thesis by simp
  qed
qed

lemma get_user_language_keeps_existing:
  assumes "find (\<lambda>r. u_user_id r = u) (users t) = Some r"
  shows "same_tables t (snd (get_user_language u t))"
proof (cases "get_user_language u t")
  case (Pair res t')
  from get_user_language_cases [OF Pair] assms show ?thesis
    unfolding Pair by (elim disjE exE conjE) simp_all
qed

lemma healthy_get_user_language_new:
  assumes "healthy t" and "find (\<lambda>r. u_user_id r = u) (users t) = None"
  shows "users (snd (get_user_language u t)) =
     upsert u ''english'' (current_timestamp t) (users t)"
  using assms
  by (simp add: get_user_language_def fetch_language_def set_user_language_def
      try_set_user_language_def varchar10_def healthy_simps)




text \<open>
  Claim C9. When the lookup inside \<open>get_user_language\<close> raises (the connection cannot be
  ensured, or the \<open>SELECT\<close> fails), \<open>get_user_language\<close> returns \<open>'english'\<close>; it returns a plain
  string, so nothing propagates. The \<open>users\<close> table is left as it was: a stored \<open>'arabic'\<close> is
  still stored, but not reported by this call.
\<close>

theorem get_user_language_fails_soft:
  assumes "fst (fetch_language u t) = Inl e"
  shows "fst (get_user_language u t) = ''english''
     \<and> users (snd (get_user_language u t)) = users t"
proof (cases "fetch_language u t")
  case (Pair r t1)
  with assms have "r = Inl e" by simp
  with Pair have "get_user_language u t = (''english'', t1)"
    by (simp add: get_user_language_def and_then_def)
  moreover from fetch_language_cases [OF Pair] have "users t1 = users t"
    by (simp add: same_tables_def)
  ultimately show ?thesis by simp
qed

text \<open>
  Claim C6. For a user without a row, two calls of \<open>get_user_language\<close> in a row both return
  \<open>'english'\<close>, and afterwards the table holds at most one row of that user; when the storage
  round trips succeed it holds exactly one.
\<close>

theorem get_user_language_twice_new_user:
  assumes "user_rows u t = []"
  shows "fst (get_user_language u t) = ''english''
     \<and> fst (get_user_language u (snd (get_user_language u t))) = ''english''
     \<and> length (user_rows u (snd (get_user_language u (snd (get_user_language u t))))) \<le> 1
     \<and> (healthy t \<longrightarrow>
          length (user_rows u (snd (get_user_language u (snd (get_user_language u t))))) = 1)"
proof -
  let ?t1 = "snd (get_user_language u t)"
  let ?t2 = "snd (get_user_language u ?t1)"
  from assms have none: "\<forall>r \<in> set (users t). u_user_id r \<noteq> u"
    by (simp add: user_rows_def filter_empty_conv)
  then have e0: "all_english u t" by (simp add: all_english_def)
  note first = get_user_language_english [OF e0]
  then have e1: "all_english u ?t1" by simp
  note second = get_user_language_english [OF e1]
  from first assms have l1: "length (user_rows u ?t1) \<le> 1" by simp
  with second have l2: "length (user_rows u ?t2) \<le> 1" by simp
  have exact: "length (user_rows u ?t2) = 1" if h: "healthy t"
  proof -
    from none have "find (\<lambda>r. u_user_id r = u) (users t) = None"
      by (simp add: find_None_iff)
    from healthy_get_user_language_new [OF h this]
    have us: "users ?t1 = upsert u ''english'' (current_timestamp t) (users t)" .
    then obtain r where "find (\<lambda>r. u_user_id r = u) (users ?t1) = Some r"
      using find_upsert [of u "''english''" "current_timestamp t" "users t"] by auto
    then have "same_tables ?t1 ?t2" by (rule get_user_language_keeps_existing)
    then have "user_rows u ?t2 = user_rows u ?t1" by (rule user_rows_same)
    moreover have "length (user_rows u ?t1) = 1"
      using us assms by (simp add: user_rows_def length_user_rows_upsert)
    ultimately show ?thesis by simp
  qed
  from first second l2 exact show ?thesis by simp
qed






text \<open>
  Claim C1, amended. \<open>get_user_stats\<close> always returns a struct, never \<open>None\<close>: each field is what
  its sub-query returned, in the order last entry, total count, days since last. A sub-query
  that fails contributes its own default (\<open>None\<close> for the last entry, \<open>0\<close> for the count,
  \<open>None\<close> for the days when no last entry is obtained); the other fields are unaffected.
\<close>

theorem get_user_stats_always_a_struct:
  "fst (get_user_stats today u t) =
     Some \<lparr>last_entry = fst (get_last_entry u t),
           total_count = fst (get_total_count u (snd (get_last_entry u t))),
           days_since_last = fst (get_days_since_last today u
              (snd (get_total_count u (snd (get_last_entry u t)))))\<rparr>
   \<and> (isl (fst (try_get_last_entry u t)) \<longrightarrow> fst (get_last_entry u t) = None)
   \<and> (isl (fst (try_get_total_count u t)) \<longrightarrow> fst (get_total_count u t) = 0)
   \<and> (fst (get_last_entry u t) = None \<longrightarrow> fst (get_days_since_last today u t) = None)"
proof -
  have a: "fst (get_user_stats today u t) =
     Some \<lparr>last_entry = fst (get_last_entry u t),
           total_count = fst (get_total_count u (snd (get_last_entry u t))),
           days_since_last = fst (get_days_since_last today u
              (snd (get_total_count u (snd (get_last_entry u t)))))\<rparr>"
    by (simp add: get_user_stats_def split_beta)
  have b: "isl (fst (try_get_last_entry u t)) \<longrightarrow> fst (get_last_entry u t) = None"
    by (cases "try_get_last_entry u t") (auto simp: get_last_entry_def split: sum.splits)
  have c: "isl (fst (try_get_total_count u t)) \<longrightarrow> fst (get_total_count u t) = 0"
    by (cases "try_get_total_count u t") (auto simp: get_total_count_def split: sum.splits)
  have d: "fst (get_last_entry u t) = None \<longrightarrow> fst (get_days_since_last today u t) = None"
    by (cases "get_last_entry u t") (auto simp: get_days_since_last_def)
  from a b c d show ?thesis by blast
qed

text \<open>
  Claim C1, as stated, fails. On \<open>flaky_tracker\<close> the first sub-query, \<open>get_last_entry\<close>,
  fails (its \<open>try\<close> block raises), yet \<open>get_user_stats\<close> does not return \<open>None\<close>: it returns a
  struct whose \<open>last_entry\<close> is the default \<open>None\<close> while \<open>total_count\<close> and \<open>days_since_last\<close>
  come from the two sub-queries that succeeded.
\<close>

theorem get_user_stats_partial_on_failure:
  "isl (fst (try_get_last_entry 42 flaky_tracker))
   \<and> fst (get_user_stats 19723 42 flaky_tracker) =
       Some \<lparr>last_entry = None, total_count = 1, days_since_last = Some 0\<rparr>"
  by code_simp

theorem get_user_stats_always_a_struct_witness:
  "isl (fst (try_get_last_entry 42 flaky_tracker))
   \<and> fst (get_last_entry 42 flaky_tracker) = None
   \<and> fst (get_user_stats 19723 42 flaky_tracker) \<noteq> None"
proof -
  have f: "isl (fst (try_get_last_entry 42 flaky_tracker))" by code_simp
  with get_user_stats_always_a_struct [of 19723 42 flaky_tracker] show ?thesis
    by simp
qed


theorem get_user_language_fails_soft_witness:
  "fst (fetch_language 42 (arabic_user_tracker\<lparr>faults := [True, True]\<rparr>)) =
     Inl (OperationalError ''server closed the connection unexpectedly'')
   \<and> map u_language (user_rows 42 (arabic_user_tracker\<lparr>faults := [True, True]\<rparr>)) = [''arabic'']
   \<and> fst (get_user_language 42 (arabic_user_tracker\<lparr>faults := [True, True]\<rparr>)) = ''english''"
proof -
  let ?t = "arabic_user_tracker\<lparr>faults := [True, True]\<rparr>"
  have f: "fst (fetch_language 42 ?t) =
     Inl (OperationalError ''server closed the connection unexpectedly'')"
    by code_simp
  have r: "map u_language (user_rows 42 ?t) = [''arabic'']" by code_simp
  from get_user_language_fails_soft [OF f] f r show ?thesis by simp
qed

theorem get_user_language_twice_new_user_witness:
  "user_rows 42 fresh_tracker = [] \<and> healthy fresh_tracker
   \<and> fst (get_user_language 42 fresh_tracker) = ''english''
   \<and> fst (get_user_language 42 (snd (get_user_language 42 fresh_tracker))) = ''english''
   \<and> length (user_rows 42
        (snd (get_user_language 42 (snd (get_user_language 42 fresh_tracker))))) = 1"
proof -
  have n: "user_rows 42 fresh_tracker = []" by (simp add: user_rows_def fresh_tracker_def)
  have h: "healthy fresh_tracker" by (simp add: healthy_def fresh_tracker_def)
  from get_user_language_twice_new_user [OF n] n h show ?thesis by simp
qed


end
